theory Spec2Isabelle
  imports Main "HOL-Library.Word"
begin

section \<open>Endpoint lifecycle of the container network plugin (network/endpoint.go)\<close>

subsection \<open>Value types\<close>

text \<open>
  Go strings are byte strings, as \<open>string\<close> is here. A \<open>[]byte\<close> (\<open>net.IP\<close>,
  \<open>net.HardwareAddr\<close>) is a list of 8-bit words, a Go \<open>int\<close> a 64-bit word, a slice a
  list, a \<open>map[string]T\<close> a partial function from strings. \<open>cns.NICType\<close> is a named
  string type.
\<close>

type_synonym byte = "8 word"
type_synonym HardwareAddr = "byte list"
type_synonym NICType = string

text \<open>
  Types that other packages declare and that this file only passes along: their values
  are never inspected here.
\<close>

typedecl Policy
typedecl NATInfo
typedecl SubnetInfo
typedecl GetNetworkContainerResponse
typedecl any

record IPNet =
  IP :: "byte list"
  Mask :: "byte list"

text \<open>
  Modelled from the spec: \<open>DNSInfo\<close> is declared in another file of the package; the
  spec lists its content as servers, search domains and options.
\<close>

record DNSInfo =
  Suffix :: string
  Servers :: "string list"
  Options :: "string list"

record RouteInfo =
  Dst :: IPNet
  Src :: "byte list"
  Gw :: "byte list"
  Protocol :: "64 word"
  DevName :: string
  Scope :: "64 word"
  Priority :: "64 word"
  Table :: "64 word"

record IPConfig =
  Address :: IPNet
  Gateway :: "byte list"

record InterfaceInfo =
  Name :: string
  MacAddress :: HardwareAddr
  IPConfigs :: "IPConfig option list"
  Routes :: "RouteInfo list"
  DNS :: DNSInfo
  NICType :: NICType
  SkipDefaultRoutes :: bool
  HostSubnetPrefix :: IPNet
  NCResponse :: "GetNetworkContainerResponse option"
  PnPID :: string
  EndpointPolicies :: "Policy list"

record EndpointInfo =
  EndpointID :: string
  ContainerID :: string
  NetNsPath :: string
  IfName :: string
  SandboxKey :: string
  IfIndex :: "64 word"
  MacAddress :: HardwareAddr
  EndpointDNS :: DNSInfo
  IPAddresses :: "IPNet list"
  IPsToRouteViaHost :: "string list"
  InfraVnetIP :: IPNet
  Routes :: "RouteInfo list"
  EndpointPolicies :: "Policy list"
  NetworkPolicies :: "Policy list"
  Gateways :: "byte list list"
  EnableSnatOnHost :: bool
  EnableInfraVnet :: bool
  EnableMultiTenancy :: bool
  EnableSnatForDns :: bool
  AllowInboundFromHostToNC :: bool
  AllowInboundFromNCToHost :: bool
  NetworkContainerID :: string
  PODName :: string
  PODNameSpace :: string
  Data :: "string \<rightharpoonup> any"
  InfraVnetAddressSpace :: string
  SkipHotAttachEp :: bool
  IPV6Mode :: string
  VnetCidrs :: string
  ServiceCidrs :: string
  NATInfo :: "NATInfo list"
  NICType :: NICType
  SkipDefaultRoutes :: bool
  HNSEndpointID :: string
  HNSNetworkID :: string
  HostIfName :: string
  MasterIfName :: string
  AdapterName :: string
  NetworkID :: string
  Mode :: string
  Subnets :: "SubnetInfo list"
  BridgeName :: string
  NetNs :: string
  Options :: "string \<rightharpoonup> any"
  DisableHairpinOnHostInterface :: bool
  IsIPv6Enabled :: bool
  HostSubnetPrefix :: string
  PnPID :: string

text \<open>
  The endpoint record comes last, so that an unqualified field name shared with the
  records above (\<open>Routes\<close>, \<open>SandboxKey\<close>, \<open>PODName\<close>, ...) is the endpoint's field; the
  fields of \<open>EndpointInfo\<close> are written qualified.
\<close>

record endpoint =
  Id :: string
  HnsId :: string
  HNSNetworkID :: string
  SandboxKey :: string
  IfName :: string
  HostIfName :: string
  MacAddress :: HardwareAddr
  InfraVnetIP :: IPNet
  LocalIP :: string
  IPAddresses :: "IPNet list"
  Gateways :: "byte list list"
  DNS :: DNSInfo
  Routes :: "RouteInfo list"
  VlanID :: "64 word"
  EnableSnatOnHost :: bool
  EnableInfraVnet :: bool
  EnableMultitenancy :: bool
  AllowInboundFromHostToNC :: bool
  AllowInboundFromNCToHost :: bool
  NetworkContainerID :: string
  NetworkNameSpace :: string
  ContainerID :: string
  PODName :: string
  PODNameSpace :: string
  InfraVnetAddressSpace :: string
  NetNs :: string
  SecondaryInterfaces :: "string \<rightharpoonup> InterfaceInfo"
  NICType :: NICType


subsection \<open>Errors\<close>

text \<open>
  A Go \<open>error\<close> result is \<open>error option\<close> (\<open>None\<close> is \<open>nil\<close>); a result
  \<open>(*endpoint, error)\<close> is \<open>error + endpoint\<close>. The four sentinel errors are package
  variables declared in another file; \<open>errors.New\<close> and \<open>errors.Wrap\<close> build the
  other two errors of this file. In the spec's vocabulary: \<open>errEndpointNotFound\<close> is
  EndpointNotFound, \<open>errMultipleEndpointsFound\<close> is AmbiguousMatch, \<open>errEndpointInUse\<close>
  is AlreadyAttached, \<open>errEndpointNotInUse\<close> is NotAttached.
\<close>

datatype error =
    errEndpointNotFound
  | errMultipleEndpointsFound
  | errEndpointInUse
  | errEndpointNotInUse
  | errors_New string
  | errors_Wrap error string

subsection \<open>The network and its endpoint directory\<close>

text \<open>
  The \<open>network\<close> struct is declared in another file; this file reads its identifier
  (for logging) and its directory \<open>Endpoints\<close>, a \<open>map[string]*endpoint\<close>. The directory
  is a partial function here. An absent identifier reads as \<open>None\<close>, which is the \<open>nil\<close>
  that the source tests for; a stored endpoint is never \<open>nil\<close>, since \<open>newEndpoint\<close>, the
  only writer, reads \<open>ep.Id\<close> before it stores \<open>ep\<close>. Every identifier owns the endpoint
  object it maps to: the platform constructor allocates the object that \<open>newEndpoint\<close>
  stores, so no two identifiers share one, and an assignment through one entry is an
  update of the map at that identifier. From here on \<open>Id\<close> is the network's identifier and
  \<open>endpoint.Id\<close> the endpoint's.
\<close>

record network =
  Id :: string
  Endpoints :: "string \<rightharpoonup> endpoint"

text \<open>
  The platform steps (\<open>newEndpointImpl\<close>, \<open>deleteEndpointImpl\<close>, \<open>updateEndpointImpl\<close>)
  live in platform-specific files. They are parameters of the operations below; the
  collaborator clients that the source only hands through to them are part of the
  parameter. A platform step reads the network and reports a result: an error, or (for
  create and update) an endpoint, which is then never \<open>nil\<close>. It does not write the
  directory itself; the writes to the directory are the ones in this file.
\<close>

type_synonym newEndpointImpl = "network \<Rightarrow> EndpointInfo \<Rightarrow> error + endpoint"
type_synonym deleteEndpointImpl = "network \<Rightarrow> endpoint \<Rightarrow> error option"
type_synonym updateEndpointImpl = "network \<Rightarrow> EndpointInfo \<Rightarrow> EndpointInfo \<Rightarrow> error + endpoint"

subsection \<open>String helpers of the Go library\<close>

text \<open>
  \<open>strings.Split(s, sep)\<close> at a one-byte separator: the pieces of \<open>s\<close> between
  occurrences of the separator, one more piece than there are separators (so the empty
  string gives one empty piece). \<open>strings.Join\<close> puts the separator between the pieces.
\<close>

fun strings_Split :: "string \<Rightarrow> char \<Rightarrow> string list" where
  "strings_Split [] sep = [[]]"
| "strings_Split (c # cs) sep =
     (if c = sep then [] # strings_Split cs sep
      else (case strings_Split cs sep of
              [] \<Rightarrow> [[c]]
            | w # ws \<Rightarrow> (c # w) # ws))"

fun strings_Join :: "string list \<Rightarrow> string \<Rightarrow> string" where
  "strings_Join [] sep = []"
| "strings_Join [x] sep = x"
| "strings_Join (x # y # ys) sep = x @ sep @ strings_Join (y # ys) sep"

subsection \<open>Operations of endpoint.go\<close>

definition newEndpoint ::
  "newEndpointImpl \<Rightarrow> network \<Rightarrow> EndpointInfo \<Rightarrow> (error + endpoint) \<times> network" where
  "newEndpoint newEndpointImpl nw epInfo =
     (case newEndpointImpl nw epInfo of
        Inl err \<Rightarrow> (Inl err, nw)
      | Inr ep \<Rightarrow> (Inr ep, nw\<lparr>Endpoints := (Endpoints nw)(endpoint.Id ep \<mapsto> ep)\<rparr>))"

definition getEndpoint :: "network \<Rightarrow> string \<Rightarrow> error + endpoint" where
  "getEndpoint nw endpointId =
     (case Endpoints nw endpointId of
        None \<Rightarrow> Inl errEndpointNotFound
      | Some ep \<Rightarrow> Inr ep)"

definition deleteEndpoint ::
  "deleteEndpointImpl \<Rightarrow> network \<Rightarrow> string \<Rightarrow> error option \<times> network" where
  "deleteEndpoint deleteEndpointImpl nw endpointID =
     (case getEndpoint nw endpointID of
        Inl err \<Rightarrow> (None, nw)
      | Inr ep \<Rightarrow>
          (case deleteEndpointImpl nw ep of
             Some err \<Rightarrow> (Some err, nw)
           | None \<Rightarrow> (None, nw\<lparr>Endpoints := (Endpoints nw)(endpointID := None)\<rparr>)))"

definition GetPodNameWithoutSuffix :: "string \<Rightarrow> string" where
  "GetPodNameWithoutSuffix podName =
     (let nameSplit = strings_Split podName (CHR ''-'')
      in if length nameSplit > 2
         then strings_Join (take (length nameSplit - 2) nameSplit) ''-''
         else podName)"

definition podNameMatches :: "string \<Rightarrow> string \<Rightarrow> bool \<Rightarrow> bool" where
  "podNameMatches source actualValue doExactMatch =
     (if doExactMatch then source = actualValue
      else actualValue = GetPodNameWithoutSuffix source)"

text \<open>
  \<open>range nw.Endpoints\<close> visits every entry of the map once, in an order the runtime
  chooses. The order is the list of keys \<open>order\<close>; \<open>range_entries\<close> reads the entries
  in that order, and \<open>iteration_order\<close> says that a list of keys is one of the orders
  the runtime can choose.
\<close>

definition range_entries :: "('k \<rightharpoonup> 'v) \<Rightarrow> 'k list \<Rightarrow> ('k \<times> 'v) list" where
  "range_entries m order = List.map_filter (\<lambda>k. map_option (Pair k) (m k)) order"

definition iteration_order :: "('k \<rightharpoonup> 'v) \<Rightarrow> 'k list \<Rightarrow> bool" where
  "iteration_order m order \<longleftrightarrow> distinct order \<and> set order = dom m"

text \<open>
  The loop of \<open>getEndpointByPOD\<close>: \<open>ep\<close> is the candidate found so far; a second
  candidate returns from inside the loop.
\<close>

fun getEndpointByPOD_loop ::
  "(string \<times> endpoint) list \<Rightarrow> string \<Rightarrow> string \<Rightarrow> bool \<Rightarrow> endpoint option
     \<Rightarrow> error + endpoint option" where
  "getEndpointByPOD_loop [] podName podNameSpace doExactMatchForPodName ep = Inr ep"
| "getEndpointByPOD_loop ((k, endpoint) # rest) podName podNameSpace doExactMatchForPodName ep =
     (if podNameMatches (PODName endpoint) podName doExactMatchForPodName
         \<and> PODNameSpace endpoint = podNameSpace
      then (case ep of
              None \<Rightarrow>
                getEndpointByPOD_loop rest podName podNameSpace doExactMatchForPodName
                  (Some endpoint)
            | Some _ \<Rightarrow> Inl errMultipleEndpointsFound)
      else getEndpointByPOD_loop rest podName podNameSpace doExactMatchForPodName ep)"

definition getEndpointByPOD ::
  "string list \<Rightarrow> network \<Rightarrow> string \<Rightarrow> string \<Rightarrow> bool \<Rightarrow> error + endpoint" where
  "getEndpointByPOD order nw podName podNameSpace doExactMatchForPodName =
     (case getEndpointByPOD_loop (range_entries (Endpoints nw) order)
             podName podNameSpace doExactMatchForPodName None of
        Inl err \<Rightarrow> Inl err
      | Inr None \<Rightarrow> Inl errEndpointNotFound
      | Inr (Some ep) \<Rightarrow> Inr ep)"

definition attach :: "endpoint \<Rightarrow> string \<Rightarrow> error option \<times> endpoint" where
  "attach ep sandboxKey =
     (if SandboxKey ep \<noteq> [] then (Some errEndpointInUse, ep)
      else (None, ep\<lparr>SandboxKey := sandboxKey\<rparr>))"

definition detach :: "endpoint \<Rightarrow> error option \<times> endpoint" where
  "detach ep =
     (if SandboxKey ep = [] then (Some errEndpointNotInUse, ep)
      else (None, ep\<lparr>SandboxKey := []\<rparr>))"

definition updateEndpoint ::
  "updateEndpointImpl \<Rightarrow> network \<Rightarrow> EndpointInfo \<Rightarrow> EndpointInfo \<Rightarrow> error option \<times> network" where
  "updateEndpoint updateEndpointImpl nw existingEpInfo targetEpInfo =
     (case Endpoints nw (EndpointID existingEpInfo) of
        None \<Rightarrow> (Some errEndpointNotFound, nw)
      | Some stored \<Rightarrow>
          (case updateEndpointImpl nw existingEpInfo targetEpInfo of
             Inl err \<Rightarrow> (Some err, nw)
           | Inr ep \<Rightarrow>
               (None, nw\<lparr>Endpoints :=
                          (Endpoints nw)(EndpointID existingEpInfo \<mapsto> stored\<lparr>Routes := Routes ep\<rparr>)\<rparr>)))"

definition IsEndpointStateIncomplete :: "EndpointInfo \<Rightarrow> bool" where
  "IsEndpointStateIncomplete epInfo =
     (if HNSEndpointID epInfo = [] \<and> EndpointInfo.HostIfName epInfo = [] then True else False)"

definition validateEndpoint :: "endpoint \<Rightarrow> error option" where
  "validateEndpoint ep =
     (if ContainerID ep = [] \<or> NICType ep = []
      then Some (errors_New ''endpoint struct must contain a container id and nic type'')
      else None)"

text \<open>
  The loop of \<open>validateEndpoints\<close> over a slice of endpoints, none of them \<open>nil\<close>;
  \<open>containerIDs\<close> is the \<open>map[string]bool\<close> of the identifiers seen so far, and
  \<open>len\<close> of a map is the number of its keys.
\<close>

fun validateEndpoints_loop :: "endpoint list \<Rightarrow> (string \<rightharpoonup> bool) \<Rightarrow> error option" where
  "validateEndpoints_loop [] containerIDs = None"
| "validateEndpoints_loop (ep # eps) containerIDs =
     (case validateEndpoint ep of
        Some err \<Rightarrow> Some (errors_Wrap err ''failed to validate endpoint struct'')
      | None \<Rightarrow>
          (let containerIDs' = containerIDs(ContainerID ep \<mapsto> True)
           in if card (dom containerIDs') \<noteq> 1
              then Some (errors_New ''multiple distinct container ids detected'')
              else validateEndpoints_loop eps containerIDs'))"

definition validateEndpoints :: "endpoint list \<Rightarrow> error option" where
  "validateEndpoints eps = validateEndpoints_loop eps Map.empty"


subsection \<open>The spec's vocabulary\<close>

text \<open>
  The spec's words for the stripping of a stored pod name, written without the code's
  helper. \<open>strip_two_segments\<close> is the name with its trailing two hyphen-delimited
  segments dropped and the remaining segments rejoined with hyphens; a name of one or two
  segments has nothing left. \<open>stripped_pod_name\<close> drops the two segments only from a name
  of three or more segments and leaves a shorter name as it is.
\<close>

definition strip_two_segments :: "string \<Rightarrow> string" where
  "strip_two_segments name =
     strings_Join (butlast (butlast (strings_Split name (CHR ''-'')))) ''-''"

definition stripped_pod_name :: "string \<Rightarrow> string" where
  "stripped_pod_name name =
     (if length (strings_Split name (CHR ''-'')) \<ge> 3 then strip_two_segments name else name)"

text \<open>
  A candidate of a lookup by pod as the claim states it: with an exact match the stored
  pod name equals the query, otherwise the stored pod name with its trailing two segments
  stripped equals the query; in both cases the stored namespace equals the queried one.
\<close>

definition candidate_as_stated :: "string \<Rightarrow> string \<Rightarrow> bool \<Rightarrow> endpoint \<Rightarrow> bool" where
  "candidate_as_stated podName podNameSpace exactMatch e \<longleftrightarrow>
     (if exactMatch then PODName e = podName
      else strip_two_segments (PODName e) = podName)
     \<and> PODNameSpace e = podNameSpace"

text \<open>
  A candidate with the stripping limited to names of three or more segments, and the set
  of identifiers of the directory whose endpoint is such a candidate.
\<close>

definition candidate :: "string \<Rightarrow> string \<Rightarrow> bool \<Rightarrow> endpoint \<Rightarrow> bool" where
  "candidate podName podNameSpace exactMatch e \<longleftrightarrow>
     (if exactMatch then PODName e = podName
      else stripped_pod_name (PODName e) = podName)
     \<and> PODNameSpace e = podNameSpace"

definition candidates :: "network \<Rightarrow> string \<Rightarrow> string \<Rightarrow> bool \<Rightarrow> string set" where
  "candidates nw podName podNameSpace exactMatch =
     {k. \<exists>e. Endpoints nw k = Some e \<and> candidate podName podNameSpace exactMatch e}"

text \<open>
  The two errors of batch validation, as \<open>validateEndpoints\<close> builds them: the spec
  calls them InvalidEndpoint and MultipleContainerIDs.
\<close>

definition InvalidEndpoint :: error where
  "InvalidEndpoint =
     errors_Wrap (errors_New ''endpoint struct must contain a container id and nic type'')
       ''failed to validate endpoint struct''"

definition MultipleContainerIDs :: error where
  "MultipleContainerIDs = errors_New ''multiple distinct container ids detected''"

subsection \<open>Concrete inputs\<close>

text \<open>The zero values of the two structs, as Go initialises them.\<close>

definition endpoint_zero :: endpoint where
  "endpoint_zero =
     \<lparr>endpoint.Id = [], HnsId = [], HNSNetworkID = [], SandboxKey = [], IfName = [],
      HostIfName = [], MacAddress = [], InfraVnetIP = \<lparr>IP = [], Mask = []\<rparr>, LocalIP = [],
      IPAddresses = [], Gateways = [],
      DNS = \<lparr>Suffix = [], Servers = [], Options = []\<rparr>, Routes = [], VlanID = 0,
      EnableSnatOnHost = False, EnableInfraVnet = False, EnableMultitenancy = False,
      AllowInboundFromHostToNC = False, AllowInboundFromNCToHost = False,
      NetworkContainerID = [], NetworkNameSpace = [], ContainerID = [], PODName = [],
      PODNameSpace = [], InfraVnetAddressSpace = [], NetNs = [],
      SecondaryInterfaces = Map.empty, NICType = []\<rparr>"

definition EndpointInfo_zero :: EndpointInfo where
  "EndpointInfo_zero =
     \<lparr>EndpointID = [], ContainerID = [], NetNsPath = [], IfName = [], SandboxKey = [],
      IfIndex = 0, MacAddress = [],
      EndpointDNS = \<lparr>Suffix = [], Servers = [], Options = []\<rparr>, IPAddresses = [],
      IPsToRouteViaHost = [], InfraVnetIP = \<lparr>IP = [], Mask = []\<rparr>, Routes = [],
      EndpointPolicies = [], NetworkPolicies = [], Gateways = [], EnableSnatOnHost = False,
      EnableInfraVnet = False, EnableMultiTenancy = False, EnableSnatForDns = False,
      AllowInboundFromHostToNC = False, AllowInboundFromNCToHost = False,
      NetworkContainerID = [], PODName = [], PODNameSpace = [], Data = Map.empty,
      InfraVnetAddressSpace = [], SkipHotAttachEp = False, IPV6Mode = [], VnetCidrs = [],
      ServiceCidrs = [], NATInfo = [], NICType = [], SkipDefaultRoutes = False,
      HNSEndpointID = [], HNSNetworkID = [], HostIfName = [], MasterIfName = [],
      AdapterName = [], NetworkID = [], Mode = [], Subnets = [], BridgeName = [], NetNs = [],
      Options = Map.empty, DisableHairpinOnHostInterface = False, IsIPv6Enabled = False,
      HostSubnetPrefix = [], PnPID = []\<rparr>"

text \<open>
  Two pods of one deployment in the namespace \<open>default\<close>, an endpoint without NIC
  type, and a pod whose name has two segments only.
\<close>

definition web_abcde :: endpoint where
  "web_abcde = endpoint_zero\<lparr>endpoint.Id := ''ep1'', ContainerID := ''c1'', NICType := ''InfraNIC'',
     PODName := ''web-7f9c8d-abcde'', PODNameSpace := ''default''\<rparr>"

definition web_fghij :: endpoint where
  "web_fghij = endpoint_zero\<lparr>endpoint.Id := ''ep2'', ContainerID := ''c2'', NICType := ''InfraNIC'',
     PODName := ''web-7f9c8d-fghij'', PODNameSpace := ''default''\<rparr>"

definition no_nic_type :: endpoint where
  "no_nic_type = endpoint_zero\<lparr>endpoint.Id := ''ep3'', ContainerID := ''c1''\<rparr>"

definition web_1 :: endpoint where
  "web_1 = endpoint_zero\<lparr>endpoint.Id := ''ep1'', ContainerID := ''c1'', NICType := ''InfraNIC'',
     PODName := ''web-1'', PODNameSpace := ''default''\<rparr>"

definition nw_short :: network where
  "nw_short = \<lparr>Id = ''azure'', Endpoints = [''ep1'' \<mapsto> web_1]\<rparr>"

definition nw_empty :: network where
  "nw_empty = \<lparr>Id = ''azure'', Endpoints = Map.empty\<rparr>"

definition nw_one :: network where
  "nw_one = \<lparr>Id = ''azure'', Endpoints = [''ep1'' \<mapsto> web_abcde]\<rparr>"

definition nw_two :: network where
  "nw_two = \<lparr>Id = ''azure'', Endpoints = [''ep1'' \<mapsto> web_abcde, ''ep2'' \<mapsto> web_fghij]\<rparr>"

text \<open>
  Platform steps for the concrete runs: one that succeeds and one that fails, for each
  of create, delete and update.
\<close>

definition platform_error :: error where
  "platform_error = errors_New ''platform failure''"

definition new_ok :: newEndpointImpl where
  "new_ok nw epInfo = Inr (endpoint_zero\<lparr>endpoint.Id := EndpointID epInfo\<rparr>)"

definition new_fails :: newEndpointImpl where
  "new_fails nw epInfo = Inl platform_error"

definition delete_ok :: deleteEndpointImpl where
  "delete_ok nw ep = None"

definition delete_fails :: deleteEndpointImpl where
  "delete_fails nw ep = Some platform_error"

definition route_to_host :: RouteInfo where
  "route_to_host =
     \<lparr>Dst = \<lparr>IP = [10, 0, 0, 0], Mask = [255, 0, 0, 0]\<rparr>, Src = [], Gw = [10, 0, 0, 1],
      Protocol = 0, DevName = ''eth0'', Scope = 0, Priority = 0, Table = 0\<rparr>"

definition update_ok :: updateEndpointImpl where
  "update_ok nw existingEpInfo targetEpInfo =
     Inr (endpoint_zero\<lparr>endpoint.Id := EndpointID existingEpInfo,
            Routes := EndpointInfo.Routes targetEpInfo\<rparr>)"

definition update_fails :: updateEndpointImpl where
  "update_fails nw existingEpInfo targetEpInfo = Inl platform_error"

definition info_ep1 :: EndpointInfo where
  "info_ep1 = EndpointInfo_zero\<lparr>EndpointID := ''ep1''\<rparr>"

definition info_ep1_routes :: EndpointInfo where
  "info_ep1_routes = EndpointInfo_zero\<lparr>EndpointID := ''ep1'', EndpointInfo.Routes := [route_to_host]\<rparr>"

definition info_ep9 :: EndpointInfo where
  "info_ep9 = EndpointInfo_zero\<lparr>EndpointID := ''ep9''\<rparr>"

section \<open>Properties\<close>

subsection \<open>Splitting and joining\<close>

lemma strings_Split_nonempty: "strings_Split s sep \<noteq> []"
  by (induction s) (auto split: list.splits)

lemma length_strings_Split: "length (strings_Split s sep) = Suc (count_list s sep)"
  by (induction s) (auto split: list.splits)

lemma strings_Split_no_sep: "w \<in> set (strings_Split s sep) \<Longrightarrow> sep \<notin> set w"
proof (induction s arbitrary: w)
  case Nil
  then show ?case by simp
next
  case (Cons c cs)
  obtain h t where ht: "strings_Split cs sep = h # t"
    using strings_Split_nonempty [of cs sep] by (cases "strings_Split cs sep") auto
  show ?case
  proof (cases "c = sep")
    case True
    with Cons.prems have "w = [] \<or> w \<in> set (strings_Split cs sep)" by simp
    then show ?thesis using Cons.IH by auto
  next
    case False
    with Cons.prems ht have "w = c # h \<or> w \<in> set t" by simp
    then show ?thesis
    proof
      assume "w = c # h"
      moreover have "sep \<notin> set h" using Cons.IH [of h] ht by simp
      ultimately show ?thesis using False by auto
    next
      assume "w \<in> set t"
      then show ?thesis using Cons.IH [of w] ht by simp
    qed
  qed
qed

lemma strings_Join_Cons:
  "ws \<noteq> [] \<Longrightarrow> strings_Join (w # ws) sep = w @ sep @ strings_Join ws sep"
  by (cases ws) auto

lemma strings_Join_Split: "strings_Join (strings_Split s sep) [sep] = s"
proof (induction s)
  case Nil
  show ?case by simp
next
  case (Cons c cs)
  obtain h t where ht: "strings_Split cs sep = h # t"
    using strings_Split_nonempty [of cs sep] by (cases "strings_Split cs sep") auto
  show ?case
  proof (cases "c = sep")
    case True
    then show ?thesis using Cons.IH by (simp add: strings_Join_Cons strings_Split_nonempty)
  next
    case False
    have "strings_Join ((c # h) # t) [sep] = c # strings_Join (h # t) [sep]"
      by (cases t) auto
    then show ?thesis using False Cons.IH ht by simp
  qed
qed

lemma strings_Join_snoc2:
  "xs \<noteq> [] \<Longrightarrow> strings_Join (xs @ [a, b]) sep = strings_Join xs sep @ sep @ a @ sep @ b"
proof (induction xs)
  case Nil
  then show ?case by simp
next
  case (Cons x xs)
  show ?case
  proof (cases "xs = []")
    case True
    then show ?thesis by simp
  next
    case False
    then show ?thesis using Cons.IH by (simp add: strings_Join_Cons)
  qed
qed

lemma take_butlast2: "take (length ws - 2) ws = butlast (butlast ws)"
  by (simp add: butlast_conv_take numeral_2_eq_2)

lemma split_last_two:
  assumes "length ws > 2"
  shows "ws = butlast (butlast ws) @ [last (butlast ws), last ws]"
proof -
  have 1: "ws \<noteq> []" using assms by auto
  have 2: "butlast ws \<noteq> []" using assms by (cases ws rule: rev_cases) auto
  have "ws = butlast ws @ [last ws]" using 1 by simp
  moreover have "butlast ws = butlast (butlast ws) @ [last (butlast ws)]" using 2 by simp
  ultimately show ?thesis by (metis append.assoc append_Cons append_Nil)
qed

lemma pod_eval_simps:
  "GetPodNameWithoutSuffix ''web-7f9c8d-abcde'' = ''web''"
  "GetPodNameWithoutSuffix ''web-7f9c8d-fghij'' = ''web''"
  by (simp_all add: GetPodNameWithoutSuffix_def)

lemmas ex_defs = nw_one_def nw_two_def nw_empty_def nw_short_def web_abcde_def web_fghij_def
  web_1_def endpoint_zero_def no_nic_type_def

subsection \<open>Lookup by pod\<close>

text \<open>
  The helper of the code strips as \<open>stripped_pod_name\<close> does, so the test of the loop is
  \<open>candidate\<close>; the loop answers from the list of candidates among the entries it
  visits: none, exactly one, or more.
\<close>

lemma GetPodNameWithoutSuffix_stripped:
  "GetPodNameWithoutSuffix podName = stripped_pod_name podName"
proof (cases "length (strings_Split podName (CHR ''-'')) \<ge> 3")
  case True
  then have "length (strings_Split podName (CHR ''-'')) > 2" by simp
  then have "GetPodNameWithoutSuffix podName
      = strings_Join (butlast (butlast (strings_Split podName (CHR ''-'')))) ''-''"
    by (simp add: GetPodNameWithoutSuffix_def Let_def take_butlast2)
  then show ?thesis using True
    by (simp add: stripped_pod_name_def strip_two_segments_def)
next
  case False
  then have "\<not> length (strings_Split podName (CHR ''-'')) > 2" by simp
  then have "GetPodNameWithoutSuffix podName = podName"
    by (simp add: GetPodNameWithoutSuffix_def Let_def)
  then show ?thesis using False by (simp add: stripped_pod_name_def)
qed

lemma candidate_code:
  "(podNameMatches (PODName e) p x \<and> PODNameSpace e = ns) = candidate p ns x e"
  by (auto simp: candidate_def podNameMatches_def GetPodNameWithoutSuffix_stripped)

lemma getEndpointByPOD_loop_filter:
  "getEndpointByPOD_loop es p ns x acc =
     (case filter (\<lambda>(k, e). candidate p ns x e) es of
        [] \<Rightarrow> Inr acc
      | (k, e) # rest \<Rightarrow>
          (case acc of
             Some _ \<Rightarrow> Inl errMultipleEndpointsFound
           | None \<Rightarrow> (case rest of [] \<Rightarrow> Inr (Some e) | _ # _ \<Rightarrow> Inl errMultipleEndpointsFound)))"
proof (induction es arbitrary: acc)
  case Nil
  show ?case by simp
next
  case (Cons a es)
  obtain k e where a: "a = (k, e)" by (cases a)
  show ?case
  proof (cases "candidate p ns x e")
    case True
    then show ?thesis
      using Cons.IH [of "Some e"] a
      by (cases acc) (auto simp: candidate_code split: list.splits)
  next
    case False
    then show ?thesis using Cons.IH [of acc] a by (simp add: candidate_code)
  qed
qed

lemma range_entries_order:
  assumes "set order \<subseteq> dom m"
  shows "range_entries m order = map (\<lambda>k. (k, the (m k))) order"
  using assms
  by (induction order) (auto simp: range_entries_def List.map_filter_simps)

lemma range_entries_set:
  assumes "iteration_order m order"
  shows "set (range_entries m order) = {(k, e). m k = Some e}"
    and "distinct (map fst (range_entries m order))"
proof -
  have sub: "set order \<subseteq> dom m" using assms by (simp add: iteration_order_def)
  have eq: "range_entries m order = map (\<lambda>k. (k, the (m k))) order"
    by (rule range_entries_order [OF sub])
  show "set (range_entries m order) = {(k, e). m k = Some e}"
    using assms unfolding eq iteration_order_def by (auto simp: image_iff)
  have "map fst (range_entries m order) = order"
    unfolding eq by (simp add: comp_def)
  then show "distinct (map fst (range_entries m order))"
    using assms by (simp add: iteration_order_def)
qed

lemma candidates_filter:
  fixes p ns :: string and x :: bool
  assumes "iteration_order (Endpoints nw) order"
  defines "cs \<equiv> filter (\<lambda>(k, e). candidate p ns x e) (range_entries (Endpoints nw) order)"
  shows "set cs = {(k, e). Endpoints nw k = Some e \<and> candidate p ns x e}"
    and "fst ` set cs = candidates nw p ns x"
    and "distinct (map fst cs)"
    and "card (candidates nw p ns x) = length cs"
proof -
  show s: "set cs = {(k, e). Endpoints nw k = Some e \<and> candidate p ns x e}"
    unfolding cs_def using range_entries_set(1) [OF assms(1)] by auto
  show f: "fst ` set cs = candidates nw p ns x"
    unfolding s candidates_def by force
  show d: "distinct (map fst cs)"
    unfolding cs_def using range_entries_set(2) [OF assms(1)] by (simp add: distinct_map_filter)
  have "card (candidates nw p ns x) = card (set (map fst cs))"
    using f by simp
  also have "\<dots> = length (map fst cs)" using d by (rule distinct_card)
  finally show "card (candidates nw p ns x) = length cs" by simp
qed

lemma getEndpointByPOD_filter:
  "getEndpointByPOD order nw p ns x =
      (case filter (\<lambda>(k, e). candidate p ns x e) (range_entries (Endpoints nw) order) of
         [] \<Rightarrow> Inl errEndpointNotFound
       | (k, e) # rest \<Rightarrow> (case rest of [] \<Rightarrow> Inr e | _ # _ \<Rightarrow> Inl errMultipleEndpointsFound))"
  unfolding getEndpointByPOD_def getEndpointByPOD_loop_filter
  by (simp split: list.split prod.split)

lemma getEndpointByPOD_none:
  assumes "iteration_order (Endpoints nw) order"
    and "filter (\<lambda>(k, e). candidate p ns x e) (range_entries (Endpoints nw) order) = []"
  shows "getEndpointByPOD order nw p ns x = Inl errEndpointNotFound"
    and "candidates nw p ns x = {}"
proof -
  show "getEndpointByPOD order nw p ns x = Inl errEndpointNotFound"
    by (simp add: getEndpointByPOD_filter assms(2))
  show "candidates nw p ns x = {}"
    using candidates_filter(2) [OF assms(1), of p ns x] by (simp add: assms(2))
qed

lemma getEndpointByPOD_one:
  assumes "iteration_order (Endpoints nw) order"
    and "filter (\<lambda>(k, e). candidate p ns x e) (range_entries (Endpoints nw) order) = [(k, e)]"
  shows "getEndpointByPOD order nw p ns x = Inr e"
    and "candidates nw p ns x = {k}"
    and "Endpoints nw k = Some e"
proof -
  show "getEndpointByPOD order nw p ns x = Inr e"
    by (simp add: getEndpointByPOD_filter assms(2))
  show "candidates nw p ns x = {k}"
    using candidates_filter(2) [OF assms(1), of p ns x] by (simp add: assms(2))
  have "set [(k, e)] = {(k, e). Endpoints nw k = Some e \<and> candidate p ns x e}"
    using candidates_filter(1) [OF assms(1), of p ns x] unfolding assms(2) .
  then have "(k, e) \<in> {(k, e). Endpoints nw k = Some e \<and> candidate p ns x e}"
    by (metis list.set_intros(1))
  then show "Endpoints nw k = Some e" by simp
qed

lemma getEndpointByPOD_many:
  assumes "iteration_order (Endpoints nw) order"
    and "filter (\<lambda>(k, e). candidate p ns x e) (range_entries (Endpoints nw) order) = a # b # rest"
  shows "getEndpointByPOD order nw p ns x = Inl errMultipleEndpointsFound"
    and "card (candidates nw p ns x) > 1"
proof -
  show "getEndpointByPOD order nw p ns x = Inl errMultipleEndpointsFound"
    by (simp add: getEndpointByPOD_filter assms(2) split: prod.split)
  show "card (candidates nw p ns x) > 1"
    using candidates_filter(4) [OF assms(1), of p ns x] by (simp add: assms(2))
qed

lemma zero_one_many:
  fixes cs :: "('k \<times> 'v) list"
  obtains (none) "cs = []"
    | (one) k e where "cs = [(k, e)]"
    | (many) a b rest where "cs = a # b # rest"
proof (cases cs)
  case Nil
  then show ?thesis by (rule none)
next
  case (Cons a r)
  show ?thesis
  proof (cases r)
    case Nil
    obtain k e where "a = (k, e)" by (cases a)
    then show ?thesis using Cons Nil one by simp
  next
    case (Cons b rest)
    then show ?thesis using \<open>cs = a # r\<close> many by simp
  qed
qed

lemma lookup_none_case:
  fixes G :: "error + endpoint" and C :: "string set" and m :: "string \<rightharpoonup> endpoint"
  assumes r: "G = Inl errEndpointNotFound" "C = {}"
  shows "(G = Inl errEndpointNotFound \<longleftrightarrow> C = {})
       \<and> (G = Inl errMultipleEndpointsFound \<longleftrightarrow> card C > 1)
       \<and> (\<forall>e. G = Inr e \<longleftrightarrow> (\<exists>k. C = {k} \<and> m k = Some e))"
proof (intro conjI allI)
  fix e
  show "G = Inr e \<longleftrightarrow> (\<exists>k. C = {k} \<and> m k = Some e)"
    unfolding r by simp
qed (simp_all add: r)

lemma lookup_one_case:
  fixes G :: "error + endpoint" and C :: "string set" and m :: "string \<rightharpoonup> endpoint"
  assumes r: "G = Inr e" "C = {k}" "m k = Some e"
  shows "(G = Inl errEndpointNotFound \<longleftrightarrow> C = {})
       \<and> (G = Inl errMultipleEndpointsFound \<longleftrightarrow> card C > 1)
       \<and> (\<forall>e. G = Inr e \<longleftrightarrow> (\<exists>k. C = {k} \<and> m k = Some e))"
proof (intro conjI allI)
  fix e'
  have "(\<exists>k'. {k} = {k'} \<and> m k' = Some e') \<longleftrightarrow> m k = Some e'"
    by (metis singleton_inject)
  also have "\<dots> \<longleftrightarrow> e = e'" unfolding r(3) by (simp only: option.inject)
  finally show "G = Inr e' \<longleftrightarrow> (\<exists>k. C = {k} \<and> m k = Some e')"
    unfolding r(1) r(2) by (simp only: sum.inject)
qed (simp_all add: r(1) r(2))

lemma lookup_many_case:
  fixes G :: "error + endpoint" and C :: "string set" and m :: "string \<rightharpoonup> endpoint"
  assumes r: "G = Inl errMultipleEndpointsFound" "card C > 1"
  shows "(G = Inl errEndpointNotFound \<longleftrightarrow> C = {})
       \<and> (G = Inl errMultipleEndpointsFound \<longleftrightarrow> card C > 1)
       \<and> (\<forall>e. G = Inr e \<longleftrightarrow> (\<exists>k. C = {k} \<and> m k = Some e))"
proof -
  have ne: "C \<noteq> {}" using r(2) by auto
  have ns1: "C \<noteq> {k'}" for k' using r(2) by auto
  show ?thesis
  proof (intro conjI allI)
    fix e
    show "G = Inr e \<longleftrightarrow> (\<exists>k. C = {k} \<and> m k = Some e)"
      unfolding r(1) using ns1 by simp
    show "G = Inl errEndpointNotFound \<longleftrightarrow> C = {}"
      unfolding r(1) using ne by simp
    show "G = Inl errMultipleEndpointsFound \<longleftrightarrow> card C > 1"
      unfolding r(1) using r(2) by simp
  qed
qed

text \<open>
  Claim C1, as stated, fails at a stored pod name of two or fewer segments: stripping the
  trailing two segments of \<open>web-1\<close> leaves the empty name, so the endpoint is no
  candidate of the query \<open>web-1\<close> without exact match in the claim's words, and yet the
  lookup returns it: the code strips nothing from a name of fewer than three segments.
\<close>

theorem lookup_short_name_counterexample:
  "Endpoints nw_short = [''ep1'' \<mapsto> web_1]
   \<and> PODName web_1 = ''web-1'' \<and> PODNameSpace web_1 = ''default''
   \<and> strip_two_segments (PODName web_1) = []
   \<and> \<not> candidate_as_stated ''web-1'' ''default'' False web_1
   \<and> getEndpointByPOD [''ep1''] nw_short ''web-1'' ''default'' False = Inr web_1"
  by (simp add: ex_defs getEndpointByPOD_def range_entries_def List.map_filter_simps
      podNameMatches_def GetPodNameWithoutSuffix_def strip_two_segments_def
      candidate_as_stated_def)

text \<open>
  Claim C1, amended. For every directory, every query \<open>(podName, namespace, exactMatch)\<close>
  and every order in which the runtime may visit the directory: an entry is a candidate
  exactly when its stored namespace equals the queried one and, without exact match, its
  stored pod name, with its trailing two hyphen-delimited segments stripped if it has three
  or more segments and as it is otherwise, equals the query, or, with exact match, its
  stored pod name equals the query. The lookup fails with \<open>errEndpointNotFound\<close> exactly
  when there is no candidate, fails with \<open>errMultipleEndpointsFound\<close> exactly when there is
  more than one candidate anywhere in the directory, and returns an endpoint exactly when
  that endpoint is the only candidate. The answer does not depend on the order of the
  visit.
\<close>

theorem getEndpointByPOD_candidates:
  assumes "iteration_order (Endpoints nw) order"
  shows "(getEndpointByPOD order nw p ns x = Inl errEndpointNotFound
            \<longleftrightarrow> candidates nw p ns x = {})
       \<and> (getEndpointByPOD order nw p ns x = Inl errMultipleEndpointsFound
            \<longleftrightarrow> card (candidates nw p ns x) > 1)
       \<and> (\<forall>e. getEndpointByPOD order nw p ns x = Inr e
            \<longleftrightarrow> (\<exists>k. candidates nw p ns x = {k} \<and> Endpoints nw k = Some e))"
proof (cases "filter (\<lambda>(k, e). candidate p ns x e) (range_entries (Endpoints nw) order)"
    rule: zero_one_many)
  case none
  show ?thesis
    by (rule lookup_none_case [where m = "Endpoints nw", OF getEndpointByPOD_none [OF assms none]])
next
  case (one k e)
  show ?thesis
    by (rule lookup_one_case [where m = "Endpoints nw" and k = k, OF getEndpointByPOD_one [OF assms one]])
next
  case (many a b rest)
  show ?thesis
    by (rule lookup_many_case [where m = "Endpoints nw", OF getEndpointByPOD_many [OF assms many]])
qed

text \<open>
  The amended C1 at concrete directories: two pods of one deployment are ambiguous under
  the base name, a single pod is found under the base name and under its full name with
  exact match, a pod with a name of two segments is found under that name, and an unknown
  base name is not found, nor is anything in the empty directory.
\<close>

theorem getEndpointByPOD_candidates_witness:
  "iteration_order (Endpoints nw_two) [''ep1'', ''ep2'']
   \<and> getEndpointByPOD [''ep1'', ''ep2''] nw_two ''web'' ''default'' False
       = Inl errMultipleEndpointsFound
   \<and> card (candidates nw_two ''web'' ''default'' False) > 1
   \<and> iteration_order (Endpoints nw_one) [''ep1'']
   \<and> getEndpointByPOD [''ep1''] nw_one ''web'' ''default'' False = Inr web_abcde
   \<and> candidates nw_one ''web'' ''default'' False = {''ep1''}
   \<and> getEndpointByPOD [''ep1''] nw_one ''web-7f9c8d-abcde'' ''default'' True = Inr web_abcde
   \<and> getEndpointByPOD [''ep1''] nw_one ''api'' ''default'' False = Inl errEndpointNotFound
   \<and> candidates nw_one ''api'' ''default'' False = {}
   \<and> iteration_order (Endpoints nw_empty) []
   \<and> getEndpointByPOD [] nw_empty ''web'' ''default'' False = Inl errEndpointNotFound
   \<and> iteration_order (Endpoints nw_short) [''ep1'']
   \<and> getEndpointByPOD [''ep1''] nw_short ''web-1'' ''default'' False = Inr web_1
   \<and> candidates nw_short ''web-1'' ''default'' False = {''ep1''}"
proof -
  have os: "iteration_order (Endpoints nw_short) [''ep1'']"
    by (auto simp: iteration_order_def nw_short_def)
  have rs: "getEndpointByPOD [''ep1''] nw_short ''web-1'' ''default'' False = Inr web_1"
    by (simp add: ex_defs getEndpointByPOD_def range_entries_def List.map_filter_simps
      podNameMatches_def GetPodNameWithoutSuffix_def)
  have ms: "Endpoints nw_short k = Some web_1 \<longleftrightarrow> k = ''ep1''" for k
    by (simp add: nw_short_def)
  have "\<exists>k. candidates nw_short ''web-1'' ''default'' False = {k}
      \<and> Endpoints nw_short k = Some web_1"
    using getEndpointByPOD_candidates [OF os, of "''web-1''" "''default''" False] rs by blast
  then have cs: "candidates nw_short ''web-1'' ''default'' False = {''ep1''}"
    unfolding ms by blast
  have o0: "iteration_order (Endpoints nw_empty) []"
    by (simp add: iteration_order_def nw_empty_def)
  have e0: "getEndpointByPOD [] nw_empty ''web'' ''default'' False = Inl errEndpointNotFound"
    by (simp add: getEndpointByPOD_def range_entries_def List.map_filter_simps)
  have o2: "iteration_order (Endpoints nw_two) [''ep1'', ''ep2'']"
    by (auto simp: iteration_order_def nw_two_def)
  have o1: "iteration_order (Endpoints nw_one) [''ep1'']"
    by (auto simp: iteration_order_def nw_one_def)
  have r2: "getEndpointByPOD [''ep1'', ''ep2''] nw_two ''web'' ''default'' False
       = Inl errMultipleEndpointsFound"
    by (simp add: ex_defs getEndpointByPOD_def range_entries_def List.map_filter_simps
      podNameMatches_def pod_eval_simps)
  have r1: "getEndpointByPOD [''ep1''] nw_one ''web'' ''default'' False = Inr web_abcde"
    by (simp add: ex_defs getEndpointByPOD_def range_entries_def List.map_filter_simps
      podNameMatches_def pod_eval_simps)
  have r1x: "getEndpointByPOD [''ep1''] nw_one ''web-7f9c8d-abcde'' ''default'' True = Inr web_abcde"
    by (simp add: ex_defs getEndpointByPOD_def range_entries_def List.map_filter_simps
      podNameMatches_def pod_eval_simps)
  have r0: "getEndpointByPOD [''ep1''] nw_one ''api'' ''default'' False = Inl errEndpointNotFound"
    by (simp add: ex_defs getEndpointByPOD_def range_entries_def List.map_filter_simps
      podNameMatches_def pod_eval_simps)
  have m1: "Endpoints nw_one k = Some web_abcde \<longleftrightarrow> k = ''ep1''" for k
    by (simp add: nw_one_def)
  have c2: "card (candidates nw_two ''web'' ''default'' False) > 1"
    using getEndpointByPOD_candidates [OF o2, of "''web''" "''default''" False] r2 by simp
  have "\<exists>k. candidates nw_one ''web'' ''default'' False = {k} \<and> Endpoints nw_one k = Some web_abcde"
    using getEndpointByPOD_candidates [OF o1, of "''web''" "''default''" False] r1 by blast
  then have c1: "candidates nw_one ''web'' ''default'' False = {''ep1''}"
    unfolding m1 by blast
  have c0: "candidates nw_one ''api'' ''default'' False = {}"
    using getEndpointByPOD_candidates [OF o1, of "''api''" "''default''" False] r0 by simp
  show ?thesis using o2 r2 c2 o1 r1 c1 r1x r0 c0 o0 e0 os rs cs by (intro conjI)
qed

text \<open>
  Claim C2. The claim says that, in a directory with one endpoint of pod name
  \<open>web-7f9c8d-abcde\<close> in namespace \<open>default\<close>, the lookup with the full stored name and
  without exact match returns that endpoint; the comment in \<open>podNameMatches\<close> says the same
  (the stored pod name starts with the passed pod name). The code compares the query with
  the stored name after its suffix is stripped, here \<open>web\<close>, and at this input the lookup
  fails with \<open>errEndpointNotFound\<close>.
\<close>

theorem lookup_full_name_not_found:
  "Endpoints nw_one = [''ep1'' \<mapsto> web_abcde]
   \<and> PODName web_abcde = ''web-7f9c8d-abcde'' \<and> PODNameSpace web_abcde = ''default''
   \<and> GetPodNameWithoutSuffix (PODName web_abcde) = ''web''
   \<and> \<not> podNameMatches (PODName web_abcde) ''web-7f9c8d-abcde'' False
   \<and> getEndpointByPOD [''ep1''] nw_one ''web-7f9c8d-abcde'' ''default'' False
       = Inl errEndpointNotFound"
  by (simp add: ex_defs getEndpointByPOD_def range_entries_def List.map_filter_simps
      podNameMatches_def pod_eval_simps)

subsection \<open>Create, delete, update\<close>

text \<open>
  Claim C3. For every directory and identifier: if the identifier is absent,
  \<open>deleteEndpoint\<close> returns no error and the network is unchanged; if it is present and
  the platform teardown fails, \<open>deleteEndpoint\<close> returns that error and the network is
  unchanged; if it is present and the teardown succeeds, \<open>deleteEndpoint\<close> returns no
  error, the identifier is absent afterwards and every other identifier maps to what it
  mapped to before.
\<close>

theorem deleteEndpoint_cases:
  "(Endpoints nw endpointID = None \<longrightarrow> deleteEndpoint impl nw endpointID = (None, nw))
   \<and> (Endpoints nw endpointID = Some ep \<and> impl nw ep = Some err \<longrightarrow>
        deleteEndpoint impl nw endpointID = (Some err, nw))
   \<and> (Endpoints nw endpointID = Some ep \<and> impl nw ep = None \<longrightarrow>
        fst (deleteEndpoint impl nw endpointID) = None
        \<and> Endpoints (snd (deleteEndpoint impl nw endpointID)) endpointID = None
        \<and> (\<forall>k. k \<noteq> endpointID \<longrightarrow>
              Endpoints (snd (deleteEndpoint impl nw endpointID)) k = Endpoints nw k)
        \<and> Id (snd (deleteEndpoint impl nw endpointID)) = Id nw)"
  by (simp add: deleteEndpoint_def getEndpoint_def)

text \<open>The three cases of C3 at concrete directories and platform steps.\<close>

theorem deleteEndpoint_cases_witness:
  "Endpoints nw_one ''ep9'' = None
   \<and> deleteEndpoint delete_ok nw_one ''ep9'' = (None, nw_one)
   \<and> Endpoints nw_one ''ep1'' = Some web_abcde \<and> delete_fails nw_one web_abcde = Some platform_error
   \<and> deleteEndpoint delete_fails nw_one ''ep1'' = (Some platform_error, nw_one)
   \<and> delete_ok nw_one web_abcde = None
   \<and> fst (deleteEndpoint delete_ok nw_one ''ep1'') = None
   \<and> Endpoints (snd (deleteEndpoint delete_ok nw_one ''ep1'')) ''ep1'' = None
   \<and> Endpoints (snd (deleteEndpoint delete_ok nw_two ''ep1'')) ''ep2'' = Some web_fghij"
proof -
  have a: "Endpoints nw_one ''ep9'' = None" by (simp add: nw_one_def)
  have p: "Endpoints nw_one ''ep1'' = Some web_abcde" by (simp add: nw_one_def)
  have p2: "Endpoints nw_two ''ep1'' = Some web_abcde" by (simp add: nw_two_def)
  have q2: "Endpoints nw_two ''ep2'' = Some web_fghij" by (simp add: nw_two_def)
  have f: "delete_fails nw_one web_abcde = Some platform_error" by (simp add: delete_fails_def)
  have s: "delete_ok nw_one web_abcde = None" "delete_ok nw_two web_abcde = None"
    by (simp_all add: delete_ok_def)
  show ?thesis
    using a p f s q2
      deleteEndpoint_cases [where nw = nw_one and endpointID = "''ep9''" and impl = delete_ok]
      deleteEndpoint_cases [where nw = nw_one and endpointID = "''ep1''" and ep = web_abcde
        and impl = delete_fails and err = platform_error]
      deleteEndpoint_cases [where nw = nw_one and endpointID = "''ep1''" and ep = web_abcde
        and impl = delete_ok]
      deleteEndpoint_cases [where nw = nw_two and endpointID = "''ep1''" and ep = web_abcde
        and impl = delete_ok]
    by (simp add: p2)
qed

text \<open>
  Claim C4. For every directory and desired \<open>EndpointInfo\<close>: if the platform step
  fails, \<open>newEndpoint\<close> returns that error and the network is exactly as before; if it
  succeeds, \<open>newEndpoint\<close> returns the resulting endpoint and the directory maps the
  endpoint's identifier to it, with every other identifier unchanged.
\<close>

theorem newEndpoint_cases:
  "(impl nw epInfo = Inl err \<longrightarrow> newEndpoint impl nw epInfo = (Inl err, nw))
   \<and> (impl nw epInfo = Inr ep \<longrightarrow>
        fst (newEndpoint impl nw epInfo) = Inr ep
        \<and> Endpoints (snd (newEndpoint impl nw epInfo)) (endpoint.Id ep) = Some ep
        \<and> (\<forall>k. k \<noteq> endpoint.Id ep \<longrightarrow>
              Endpoints (snd (newEndpoint impl nw epInfo)) k = Endpoints nw k)
        \<and> Id (snd (newEndpoint impl nw epInfo)) = Id nw)"
  by (simp add: newEndpoint_def)

text \<open>The two cases of C4 at a concrete directory.\<close>

theorem newEndpoint_cases_witness:
  "new_fails nw_one info_ep9 = Inl platform_error
   \<and> newEndpoint new_fails nw_one info_ep9 = (Inl platform_error, nw_one)
   \<and> new_ok nw_one info_ep9 = Inr (endpoint_zero\<lparr>endpoint.Id := ''ep9''\<rparr>)
   \<and> fst (newEndpoint new_ok nw_one info_ep9) = Inr (endpoint_zero\<lparr>endpoint.Id := ''ep9''\<rparr>)
   \<and> Endpoints (snd (newEndpoint new_ok nw_one info_ep9)) ''ep9''
       = Some (endpoint_zero\<lparr>endpoint.Id := ''ep9''\<rparr>)
   \<and> Endpoints (snd (newEndpoint new_ok nw_one info_ep9)) ''ep1'' = Some web_abcde"
proof -
  have f: "new_fails nw_one info_ep9 = Inl platform_error" by (simp add: new_fails_def)
  have s: "new_ok nw_one info_ep9 = Inr (endpoint_zero\<lparr>endpoint.Id := ''ep9''\<rparr>)"
    by (simp add: new_ok_def info_ep9_def EndpointInfo_zero_def)
  have p: "Endpoints nw_one ''ep1'' = Some web_abcde" by (simp add: nw_one_def)
  show ?thesis
    using f s p
      newEndpoint_cases [where impl = new_fails and nw = nw_one and epInfo = info_ep9
        and err = platform_error]
      newEndpoint_cases [where impl = new_ok and nw = nw_one and epInfo = info_ep9
        and ep = "endpoint_zero\<lparr>endpoint.Id := ''ep9''\<rparr>"]
    by simp
qed

text \<open>
  Claim C5. Whenever \<open>updateEndpoint\<close> succeeds, the identifier was tracked, the
  platform step returned an endpoint, and the stored endpoint afterwards is the stored
  endpoint from before with only its route list replaced by the routes of the platform
  result: putting the old routes back gives the old endpoint. Every other identifier maps
  to what it mapped to before, and the network's identifier is unchanged.
\<close>

theorem updateEndpoint_frame:
  assumes "updateEndpoint impl nw existingEpInfo targetEpInfo = (None, nw')"
  shows "\<exists>stored ep.
           Endpoints nw (EndpointID existingEpInfo) = Some stored
         \<and> impl nw existingEpInfo targetEpInfo = Inr ep
         \<and> Endpoints nw' (EndpointID existingEpInfo) = Some (stored\<lparr>Routes := Routes ep\<rparr>)
         \<and> (stored\<lparr>Routes := Routes ep\<rparr>)\<lparr>Routes := Routes stored\<rparr> = stored
         \<and> (\<forall>k. k \<noteq> EndpointID existingEpInfo \<longrightarrow> Endpoints nw' k = Endpoints nw k)
         \<and> Id nw' = Id nw"
proof (cases "Endpoints nw (EndpointID existingEpInfo)")
  case None
  then show ?thesis using assms by (simp add: updateEndpoint_def)
next
  case (Some stored)
  show ?thesis
  proof (cases "impl nw existingEpInfo targetEpInfo")
    case (Inl err)
    then show ?thesis using assms Some by (simp add: updateEndpoint_def)
  next
    case (Inr ep)
    have nw': "nw' = nw\<lparr>Endpoints :=
        (Endpoints nw)(EndpointID existingEpInfo \<mapsto> stored\<lparr>Routes := Routes ep\<rparr>)\<rparr>"
      using assms Some Inr by (simp add: updateEndpoint_def)
    have "Endpoints nw' (EndpointID existingEpInfo) = Some (stored\<lparr>Routes := Routes ep\<rparr>)"
      unfolding nw' by simp
    moreover have "(stored\<lparr>Routes := Routes ep\<rparr>)\<lparr>Routes := Routes stored\<rparr> = stored"
      by simp
    moreover have "\<forall>k. k \<noteq> EndpointID existingEpInfo \<longrightarrow> Endpoints nw' k = Endpoints nw k"
      unfolding nw' by simp
    moreover have "Id nw' = Id nw" unfolding nw' by simp
    ultimately show ?thesis using Some Inr by blast
  qed
qed

text \<open>
  C5 at a directory of two endpoints: the update of \<open>ep1\<close> replaces its routes and
  leaves \<open>ep2\<close> alone.
\<close>

theorem updateEndpoint_frame_witness:
  "updateEndpoint update_ok nw_two info_ep1 info_ep1_routes
     = (None, nw_two\<lparr>Endpoints := (Endpoints nw_two)(''ep1'' \<mapsto> web_abcde\<lparr>Routes := [route_to_host]\<rparr>)\<rparr>)
   \<and> (\<exists>stored ep.
           Endpoints nw_two (EndpointID info_ep1) = Some stored
         \<and> update_ok nw_two info_ep1 info_ep1_routes = Inr ep
         \<and> Endpoints (nw_two\<lparr>Endpoints := (Endpoints nw_two)(''ep1'' \<mapsto> web_abcde\<lparr>Routes := [route_to_host]\<rparr>)\<rparr>)
              (EndpointID info_ep1) = Some (stored\<lparr>Routes := Routes ep\<rparr>)
         \<and> (stored\<lparr>Routes := Routes ep\<rparr>)\<lparr>Routes := Routes stored\<rparr> = stored
         \<and> (\<forall>k. k \<noteq> EndpointID info_ep1 \<longrightarrow>
               Endpoints (nw_two\<lparr>Endpoints := (Endpoints nw_two)(''ep1'' \<mapsto> web_abcde\<lparr>Routes := [route_to_host]\<rparr>)\<rparr>) k
                 = Endpoints nw_two k)
         \<and> Id (nw_two\<lparr>Endpoints := (Endpoints nw_two)(''ep1'' \<mapsto> web_abcde\<lparr>Routes := [route_to_host]\<rparr>)\<rparr>)
             = Id nw_two)"
proof -
  have r: "updateEndpoint update_ok nw_two info_ep1 info_ep1_routes
     = (None, nw_two\<lparr>Endpoints := (Endpoints nw_two)(''ep1'' \<mapsto> web_abcde\<lparr>Routes := [route_to_host]\<rparr>)\<rparr>)"
    by (simp add: updateEndpoint_def update_ok_def info_ep1_def info_ep1_routes_def
        EndpointInfo_zero_def nw_two_def)
  show ?thesis using r updateEndpoint_frame [OF r] by (intro conjI)
qed

text \<open>
  Claim C6. \<open>updateEndpoint\<close> fails with \<open>errEndpointNotFound\<close> when the identifier of
  the existing \<open>EndpointInfo\<close> is not in the directory, and with the platform's error
  when the platform step fails; in both cases the network, and so the stored endpoint's
  routes, is unchanged.
\<close>

theorem updateEndpoint_failures:
  "(Endpoints nw (EndpointID existingEpInfo) = None \<longrightarrow>
      updateEndpoint impl nw existingEpInfo targetEpInfo = (Some errEndpointNotFound, nw))
   \<and> (Endpoints nw (EndpointID existingEpInfo) = Some stored
        \<and> impl nw existingEpInfo targetEpInfo = Inl err \<longrightarrow>
      updateEndpoint impl nw existingEpInfo targetEpInfo = (Some err, nw))"
  by (simp add: updateEndpoint_def)

text \<open>The two failures of C6 at a concrete directory.\<close>

theorem updateEndpoint_failures_witness:
  "Endpoints nw_one (EndpointID info_ep9) = None
   \<and> updateEndpoint update_ok nw_one info_ep9 info_ep1_routes = (Some errEndpointNotFound, nw_one)
   \<and> Endpoints nw_one (EndpointID info_ep1) = Some web_abcde
   \<and> update_fails nw_one info_ep1 info_ep1_routes = Inl platform_error
   \<and> updateEndpoint update_fails nw_one info_ep1 info_ep1_routes = (Some platform_error, nw_one)"
proof -
  have a: "Endpoints nw_one (EndpointID info_ep9) = None"
    by (simp add: nw_one_def info_ep9_def EndpointInfo_zero_def)
  have p: "Endpoints nw_one (EndpointID info_ep1) = Some web_abcde"
    by (simp add: nw_one_def info_ep1_def EndpointInfo_zero_def)
  have f: "update_fails nw_one info_ep1 info_ep1_routes = Inl platform_error"
    by (simp add: update_fails_def)
  show ?thesis
    using a p f
      updateEndpoint_failures [where nw = nw_one and existingEpInfo = info_ep9
        and impl = update_ok and targetEpInfo = info_ep1_routes]
      updateEndpoint_failures [where nw = nw_one and existingEpInfo = info_ep1
        and impl = update_fails and targetEpInfo = info_ep1_routes and stored = web_abcde
        and err = platform_error]
    by simp
qed

subsection \<open>Attach and detach\<close>

text \<open>
  Claim C7, as stated, fails in its last part: attaching the empty sandbox key to an
  unattached endpoint succeeds and leaves the key empty, so an attach that follows
  immediately succeeds too.
\<close>

theorem attach_twice_counterexample:
  "attach endpoint_zero [] = (None, endpoint_zero)
   \<and> attach (snd (attach endpoint_zero [])) ''sandbox'' \<noteq> (Some errEndpointInUse, snd (attach endpoint_zero []))
   \<and> fst (attach (snd (attach endpoint_zero [])) ''sandbox'') = None"
  by (simp add: attach_def endpoint_zero_def)

text \<open>
  Claim C7, amended. For every endpoint: \<open>attach\<close> fails with \<open>errEndpointInUse\<close>
  exactly when the sandbox key is non-empty, and then the endpoint is unchanged; otherwise
  it sets the key to its argument and succeeds. \<open>detach\<close> fails with
  \<open>errEndpointNotInUse\<close> exactly when the key is empty, and then the endpoint is
  unchanged; otherwise it clears the key and succeeds. Hence an attach of a non-empty key
  immediately followed by an attach fails, and a detach immediately followed by a detach
  fails.
\<close>

theorem attach_detach_slot:
  "(fst (attach ep sandboxKey) = Some errEndpointInUse \<longleftrightarrow> SandboxKey ep \<noteq> [])
   \<and> (SandboxKey ep \<noteq> [] \<longrightarrow> attach ep sandboxKey = (Some errEndpointInUse, ep))
   \<and> (SandboxKey ep = [] \<longrightarrow> attach ep sandboxKey = (None, ep\<lparr>SandboxKey := sandboxKey\<rparr>))
   \<and> (fst (detach ep) = Some errEndpointNotInUse \<longleftrightarrow> SandboxKey ep = [])
   \<and> (SandboxKey ep = [] \<longrightarrow> detach ep = (Some errEndpointNotInUse, ep))
   \<and> (SandboxKey ep \<noteq> [] \<longrightarrow> detach ep = (None, ep\<lparr>SandboxKey := []\<rparr>))
   \<and> (sandboxKey \<noteq> [] \<longrightarrow>
        fst (attach (snd (attach ep sandboxKey)) sandboxKey') = Some errEndpointInUse)
   \<and> fst (detach (snd (detach ep))) = Some errEndpointNotInUse"
  by (simp add: attach_def detach_def)

text \<open>The amended C7 on the zero endpoint and on an attached one.\<close>

theorem attach_detach_slot_witness:
  "SandboxKey endpoint_zero = []
   \<and> attach endpoint_zero ''ns1'' = (None, endpoint_zero\<lparr>SandboxKey := ''ns1''\<rparr>)
   \<and> fst (attach (snd (attach endpoint_zero ''ns1'')) ''ns2'') = Some errEndpointInUse
   \<and> detach endpoint_zero = (Some errEndpointNotInUse, endpoint_zero)
   \<and> SandboxKey (endpoint_zero\<lparr>SandboxKey := ''ns1''\<rparr>) \<noteq> []
   \<and> attach (endpoint_zero\<lparr>SandboxKey := ''ns1''\<rparr>) ''ns2''
       = (Some errEndpointInUse, endpoint_zero\<lparr>SandboxKey := ''ns1''\<rparr>)
   \<and> detach (endpoint_zero\<lparr>SandboxKey := ''ns1''\<rparr>) = (None, endpoint_zero\<lparr>SandboxKey := ''ns1'', SandboxKey := []\<rparr>)"
proof -
  have z: "SandboxKey endpoint_zero = []" by (simp add: endpoint_zero_def)
  have n: "SandboxKey (endpoint_zero\<lparr>SandboxKey := ''ns1''\<rparr>) \<noteq> []" by simp
  have k: "''ns1'' \<noteq> []" by simp
  show ?thesis
    using z n k
      attach_detach_slot [where ep = endpoint_zero and sandboxKey = "''ns1''" and sandboxKey' = "''ns2''"]
      attach_detach_slot [where ep = "endpoint_zero\<lparr>SandboxKey := ''ns1''\<rparr>" and sandboxKey = "''ns2''"]
    by simp
qed

subsection \<open>Incomplete snapshots\<close>

text \<open>
  Claim C9. For every \<open>EndpointInfo\<close>, \<open>IsEndpointStateIncomplete\<close> is true exactly
  when both \<open>HNSEndpointID\<close> and \<open>HostIfName\<close> are the empty string.
\<close>

theorem IsEndpointStateIncomplete_iff:
  "IsEndpointStateIncomplete epInfo
     \<longleftrightarrow> HNSEndpointID epInfo = [] \<and> EndpointInfo.HostIfName epInfo = []"
  by (simp add: IsEndpointStateIncomplete_def)

text \<open>C9 at the four combinations of an empty and a non-empty handle and name.\<close>

theorem IsEndpointStateIncomplete_iff_witness:
  "IsEndpointStateIncomplete EndpointInfo_zero
   \<and> \<not> IsEndpointStateIncomplete (EndpointInfo_zero\<lparr>HNSEndpointID := ''hns-1''\<rparr>)
   \<and> \<not> IsEndpointStateIncomplete (EndpointInfo_zero\<lparr>EndpointInfo.HostIfName := ''veth0''\<rparr>)
   \<and> \<not> IsEndpointStateIncomplete
         (EndpointInfo_zero\<lparr>HNSEndpointID := ''hns-1'', EndpointInfo.HostIfName := ''veth0''\<rparr>)"
  using IsEndpointStateIncomplete_iff [of EndpointInfo_zero]
    IsEndpointStateIncomplete_iff [of "EndpointInfo_zero\<lparr>HNSEndpointID := ''hns-1''\<rparr>"]
    IsEndpointStateIncomplete_iff [of "EndpointInfo_zero\<lparr>EndpointInfo.HostIfName := ''veth0''\<rparr>"]
    IsEndpointStateIncomplete_iff
      [of "EndpointInfo_zero\<lparr>HNSEndpointID := ''hns-1'', EndpointInfo.HostIfName := ''veth0''\<rparr>"]
  by (simp add: EndpointInfo_zero_def)

subsection \<open>Batch validation\<close>

text \<open>
  One round of the loop: an invalid member ends it with InvalidEndpoint, a valid member
  with a container identifier other than the one seen so far ends it with
  MultipleContainerIDs, and any other member is recorded.
\<close>

lemma card_insert_one: "card (insert c D) = Suc 0 \<longleftrightarrow> (\<forall>k \<in> D. k = c)"
proof
  assume "card (insert c D) = Suc 0"
  then obtain x where x: "insert c D = {x}" by (auto simp: card_1_singleton_iff)
  then have "x = c" by blast
  then show "\<forall>k \<in> D. k = c" using x by blast
next
  assume "\<forall>k \<in> D. k = c"
  then have "insert c D = {c}" by blast
  moreover have "card {c} = Suc 0" by simp
  ultimately show "card (insert c D) = Suc 0" by (simp only:)
qed

lemma validateEndpoints_loop_Cons:
  "validateEndpoints_loop (ep # eps) m =
     (if ContainerID ep = [] \<or> NICType ep = [] then Some InvalidEndpoint
      else if \<not> (\<forall>k \<in> dom m. k = ContainerID ep) then Some MultipleContainerIDs
      else validateEndpoints_loop eps (m(ContainerID ep \<mapsto> True)))"
proof (cases "ContainerID ep = [] \<or> NICType ep = []")
  case True
  then have "validateEndpoint ep
      = Some (errors_New ''endpoint struct must contain a container id and nic type'')"
    by (simp only: validateEndpoint_def if_True)
  then show ?thesis using True
    by (simp only: validateEndpoints_loop.simps option.case InvalidEndpoint_def if_True)
next
  case False
  then have v: "validateEndpoint ep = None"
    by (simp only: validateEndpoint_def if_False)
  have c: "card (dom (m(ContainerID ep \<mapsto> True))) \<noteq> 1
      \<longleftrightarrow> \<not> (\<forall>k \<in> dom m. k = ContainerID ep)"
    by (simp only: dom_fun_upd option.simps if_False One_nat_def card_insert_one)
  show ?thesis
  proof (cases "\<forall>k \<in> dom m. k = ContainerID ep")
    case True
    then show ?thesis using False v c
      by (simp only: validateEndpoints_loop.simps option.case Let_def if_False if_True
          MultipleContainerIDs_def simp_thms)
  next
    case nd: False
    then show ?thesis using False v c
      by (simp only: validateEndpoints_loop.simps option.case Let_def if_False if_True
          MultipleContainerIDs_def simp_thms)
  qed
qed

lemma validateEndpoints_loop_bad:
  assumes "ContainerID ep = [] \<or> NICType ep = []"
  shows "validateEndpoints_loop (ep # eps) m = Some InvalidEndpoint"
  unfolding validateEndpoints_loop_Cons using assms by simp

lemma validateEndpoints_loop_second_id:
  assumes "ContainerID ep \<noteq> []" and "NICType ep \<noteq> []"
    and "\<not> (\<forall>k \<in> dom m. k = ContainerID ep)"
  shows "validateEndpoints_loop (ep # eps) m = Some MultipleContainerIDs"
  unfolding validateEndpoints_loop_Cons using assms by simp

lemma validateEndpoints_loop_next:
  assumes "ContainerID ep \<noteq> []" and "NICType ep \<noteq> []"
    and "\<forall>k \<in> dom m. k = ContainerID ep"
  shows "validateEndpoints_loop (ep # eps) m
           = validateEndpoints_loop eps (m(ContainerID ep \<mapsto> True))"
  unfolding validateEndpoints_loop_Cons using assms by simp

lemma validateEndpoints_loop_step:
  assumes "validateEndpoints_loop (a # pre) m = None"
  shows "validateEndpoints_loop pre (m(ContainerID a \<mapsto> True)) = None"
    and "validateEndpoints_loop ((a # pre) @ rest) m
          = validateEndpoints_loop (pre @ rest) (m(ContainerID a \<mapsto> True))"
    and "\<forall>k \<in> dom m. k = ContainerID a"
    and "ContainerID a \<noteq> [] \<and> NICType a \<noteq> []"
proof -
  have v: "ContainerID a \<noteq> [] \<and> NICType a \<noteq> []"
  proof (rule ccontr)
    assume "\<not> (ContainerID a \<noteq> [] \<and> NICType a \<noteq> [])"
    then have "ContainerID a = [] \<or> NICType a = []" by blast
    then have "validateEndpoints_loop (a # pre) m = Some InvalidEndpoint"
      by (rule validateEndpoints_loop_bad)
    then show False using assms by simp
  qed
  have d: "\<forall>k \<in> dom m. k = ContainerID a"
  proof (rule ccontr)
    assume "\<not> (\<forall>k \<in> dom m. k = ContainerID a)"
    then have "validateEndpoints_loop (a # pre) m = Some MultipleContainerIDs"
      using v by (blast intro: validateEndpoints_loop_second_id)
    then show False using assms by simp
  qed
  have step: "validateEndpoints_loop (a # xs) m
      = validateEndpoints_loop xs (m(ContainerID a \<mapsto> True))" for xs
    using v d by (blast intro: validateEndpoints_loop_next)
  show "validateEndpoints_loop pre (m(ContainerID a \<mapsto> True)) = None"
    using assms unfolding step .
  show "validateEndpoints_loop ((a # pre) @ rest) m
          = validateEndpoints_loop (pre @ rest) (m(ContainerID a \<mapsto> True))"
    unfolding append_Cons step ..
  show "\<forall>k \<in> dom m. k = ContainerID a" by (rule d)
  show "ContainerID a \<noteq> [] \<and> NICType a \<noteq> []" by (rule v)
qed

lemma validateEndpoints_loop_ok:
  assumes "\<And>e. e \<in> set eps \<Longrightarrow> ContainerID e \<noteq> [] \<and> NICType e \<noteq> []"
    and "\<And>e. e \<in> set eps \<Longrightarrow> ContainerID e = c"
    and "\<And>k. k \<in> dom m \<Longrightarrow> k = c"
  shows "validateEndpoints_loop eps m = None"
  using assms
proof (induction eps arbitrary: m)
  case Nil
  show ?case by simp
next
  case (Cons a eps)
  have a: "ContainerID a \<noteq> [] \<and> NICType a \<noteq> []" "ContainerID a = c"
    using Cons.prems(1) [of a] Cons.prems(2) [of a] by simp_all
  have d: "\<forall>k \<in> dom m. k = ContainerID a" using Cons.prems(3) a(2) by blast
  have step: "validateEndpoints_loop (a # eps) m
      = validateEndpoints_loop eps (m(ContainerID a \<mapsto> True))"
    using a(1) d by (blast intro: validateEndpoints_loop_next)
  have "validateEndpoints_loop eps (m(ContainerID a \<mapsto> True)) = None"
  proof (rule Cons.IH)
    show "ContainerID e \<noteq> [] \<and> NICType e \<noteq> []" if "e \<in> set eps" for e
      using Cons.prems(1) [of e] that by simp
    show "ContainerID e = c" if "e \<in> set eps" for e
      using Cons.prems(2) [of e] that by simp
    show "k = c" if "k \<in> dom (m(ContainerID a \<mapsto> True))" for k
      using that Cons.prems(3) [of k] a(2) by (cases "k = ContainerID a") simp_all
  qed
  then show ?case unfolding step .
qed

lemma validateEndpoints_loop_member:
  assumes "validateEndpoints_loop eps m = None" and "e \<in> set eps"
  shows "(ContainerID e \<noteq> [] \<and> NICType e \<noteq> []) \<and> (\<forall>k \<in> dom m. k = ContainerID e)"
  using assms
proof (induction eps arbitrary: m)
  case Nil
  then show ?case by simp
next
  case (Cons a eps)
  note s = validateEndpoints_loop_step [OF Cons.prems(1)]
  show ?case
  proof (cases "e = a")
    case True
    then show ?thesis using s(3) s(4) by simp
  next
    case False
    then have e: "e \<in> set eps" using Cons.prems(2) by simp
    have ih: "(ContainerID e \<noteq> [] \<and> NICType e \<noteq> [])
        \<and> (\<forall>k \<in> dom (m(ContainerID a \<mapsto> True)). k = ContainerID e)"
      by (rule Cons.IH [OF s(1) e])
    then have "ContainerID a = ContainerID e" by simp
    then show ?thesis using ih s(3) by simp
  qed
qed

lemma validateEndpoints_loop_head_id:
  assumes "validateEndpoints_loop (a # eps) m = None" and "x \<in> set (a # eps)"
  shows "ContainerID x = ContainerID a"
proof (cases "x = a")
  case True
  then show ?thesis by simp
next
  case False
  then have x: "x \<in> set eps" using assms(2) by simp
  note s = validateEndpoints_loop_step [OF assms(1)]
  have "\<forall>k \<in> dom (m(ContainerID a \<mapsto> True)). k = ContainerID x"
    using validateEndpoints_loop_member [OF s(1) x] by blast
  then show ?thesis by simp
qed

lemma validateEndpoints_loop_same_id:
  assumes "validateEndpoints_loop eps m = None" and "e \<in> set eps" and "e' \<in> set eps"
  shows "ContainerID e = ContainerID e'"
proof (cases eps)
  case Nil
  then show ?thesis using assms(2) by simp
next
  case (Cons a rest)
  have "ContainerID e = ContainerID a"
    using validateEndpoints_loop_head_id [of a rest m e] assms(1,2) Cons by simp
  moreover have "ContainerID e' = ContainerID a"
    using validateEndpoints_loop_head_id [of a rest m e'] assms(1,3) Cons by simp
  ultimately show ?thesis by simp
qed

lemma validateEndpoints_loop_invalid:
  assumes "validateEndpoints_loop pre m = None"
    and "ContainerID e = [] \<or> NICType e = []"
  shows "validateEndpoints_loop (pre @ e # rest) m = Some InvalidEndpoint"
  using assms(1)
proof (induction pre arbitrary: m)
  case Nil
  show ?case unfolding append_Nil using assms(2) by (rule validateEndpoints_loop_bad)
next
  case (Cons a pre)
  note s = validateEndpoints_loop_step [OF Cons.prems]
  show ?case unfolding s(2) by (rule Cons.IH [OF s(1)])
qed

lemma validateEndpoints_loop_multiple:
  assumes "ContainerID e \<noteq> []" and "NICType e \<noteq> []"
    and "validateEndpoints_loop pre m = None"
    and "\<exists>k \<in> dom m \<union> ContainerID ` set pre. k \<noteq> ContainerID e"
  shows "validateEndpoints_loop (pre @ e # rest) m = Some MultipleContainerIDs"
  using assms(3,4)
proof (induction pre arbitrary: m)
  case Nil
  then have "\<not> (\<forall>k \<in> dom m. k = ContainerID e)" by simp
  then show ?case unfolding append_Nil using assms(1,2)
    by (blast intro: validateEndpoints_loop_second_id)
next
  case (Cons a pre)
  note s = validateEndpoints_loop_step [OF Cons.prems(1)]
  have "\<exists>k \<in> dom (m(ContainerID a \<mapsto> True)) \<union> ContainerID ` set pre. k \<noteq> ContainerID e"
    using Cons.prems(2) by auto
  then show ?case unfolding s(2) by (rule Cons.IH [OF s(1)])
qed

lemma validateEndpoints_loop_result:
  "validateEndpoints_loop xs m = None \<or> validateEndpoints_loop xs m = Some InvalidEndpoint
     \<or> validateEndpoints_loop xs m = Some MultipleContainerIDs"
proof (induction xs arbitrary: m)
  case Nil
  show ?case by simp
next
  case (Cons a xs)
  consider (bad) "ContainerID a = [] \<or> NICType a = []"
    | (second) "ContainerID a \<noteq> []" "NICType a \<noteq> []" "\<not> (\<forall>k \<in> dom m. k = ContainerID a)"
    | (go) "ContainerID a \<noteq> []" "NICType a \<noteq> []" "\<forall>k \<in> dom m. k = ContainerID a"
    by blast
  then show ?case
  proof cases
    case bad
    then show ?thesis by (simp only: validateEndpoints_loop_bad simp_thms)
  next
    case second
    then show ?thesis by (simp only: validateEndpoints_loop_second_id simp_thms)
  next
    case go
    show ?thesis unfolding validateEndpoints_loop_next [OF go]
      by (rule Cons.IH)
  qed
qed

text \<open>
  Claim C8, as stated, fails in its first part: a batch whose third member has an empty
  NIC type, after two valid members with different container identifiers, fails with
  MultipleContainerIDs, not with InvalidEndpoint: the loop stops at the second member.
\<close>

theorem validateEndpoints_invalid_after_second_id_counterexample:
  "NICType no_nic_type = []
   \<and> validateEndpoints [web_abcde, web_fghij, no_nic_type] = Some MultipleContainerIDs
   \<and> validateEndpoints [web_abcde, web_fghij, no_nic_type] \<noteq> Some InvalidEndpoint"
  by (simp add: validateEndpoints_def validateEndpoint_def ex_defs InvalidEndpoint_def
      MultipleContainerIDs_def)

text \<open>
  Claim C8, amended. Batch validation succeeds exactly when every member has a non-empty
  container identifier and a non-empty NIC type and all members share one container
  identifier. It fails at the first member that breaks this: with InvalidEndpoint if that
  member has an empty container identifier or an empty NIC type, and with
  MultipleContainerIDs if that member is valid and its container identifier differs from
  the one of an earlier member. So a batch with an invalid member fails, with one of the
  two errors.
\<close>

theorem validateEndpoints_first_offender:
  "(validateEndpoints eps = None \<longleftrightarrow>
      (\<forall>e \<in> set eps. ContainerID e \<noteq> [] \<and> NICType e \<noteq> [])
      \<and> (\<forall>e \<in> set eps. \<forall>e' \<in> set eps. ContainerID e = ContainerID e'))
   \<and> (validateEndpoints pre = None \<and> (ContainerID bad = [] \<or> NICType bad = []) \<longrightarrow>
        validateEndpoints (pre @ bad # rest) = Some InvalidEndpoint)
   \<and> (validateEndpoints pre = None \<and> ContainerID other \<noteq> [] \<and> NICType other \<noteq> []
        \<and> (\<exists>e \<in> set pre. ContainerID e \<noteq> ContainerID other) \<longrightarrow>
        validateEndpoints (pre @ other # rest) = Some MultipleContainerIDs)
   \<and> ((\<exists>e \<in> set eps. ContainerID e = [] \<or> NICType e = []) \<longrightarrow>
        validateEndpoints eps = Some InvalidEndpoint
        \<or> validateEndpoints eps = Some MultipleContainerIDs)"
proof (intro conjI impI)
  show ok: "validateEndpoints eps = None \<longleftrightarrow>
      (\<forall>e \<in> set eps. ContainerID e \<noteq> [] \<and> NICType e \<noteq> [])
      \<and> (\<forall>e \<in> set eps. \<forall>e' \<in> set eps. ContainerID e = ContainerID e')"
  proof
    assume n: "validateEndpoints eps = None"
    then have l: "validateEndpoints_loop eps Map.empty = None"
      by (simp only: validateEndpoints_def)
    show "(\<forall>e \<in> set eps. ContainerID e \<noteq> [] \<and> NICType e \<noteq> [])
      \<and> (\<forall>e \<in> set eps. \<forall>e' \<in> set eps. ContainerID e = ContainerID e')"
      using validateEndpoints_loop_member [OF l] validateEndpoints_loop_same_id [OF l]
      by blast
  next
    assume h: "(\<forall>e \<in> set eps. ContainerID e \<noteq> [] \<and> NICType e \<noteq> [])
      \<and> (\<forall>e \<in> set eps. \<forall>e' \<in> set eps. ContainerID e = ContainerID e')"
    show "validateEndpoints eps = None"
    proof (cases eps)
      case Nil
      then show ?thesis by (simp add: validateEndpoints_def)
    next
      case (Cons a rest)
      have "validateEndpoints_loop eps Map.empty = None"
      proof (rule validateEndpoints_loop_ok [where c = "ContainerID a"])
        show "ContainerID e \<noteq> [] \<and> NICType e \<noteq> []" if "e \<in> set eps" for e
          using h that by blast
        show "ContainerID e = ContainerID a" if "e \<in> set eps" for e
        proof -
          have "a \<in> set eps" using Cons by simp
          then show ?thesis using h that by blast
        qed
        show "k = ContainerID a" if "k \<in> dom (Map.empty :: string \<rightharpoonup> bool)" for k
          using that by simp
      qed
      then show ?thesis by (simp only: validateEndpoints_def)
    qed
  qed
  show "validateEndpoints (pre @ bad # rest) = Some InvalidEndpoint"
    if h: "validateEndpoints pre = None \<and> (ContainerID bad = [] \<or> NICType bad = [])"
  proof -
    have l: "validateEndpoints_loop pre Map.empty = None"
      using h by (simp only: validateEndpoints_def)
    have b: "ContainerID bad = [] \<or> NICType bad = []" using h by blast
    show ?thesis unfolding validateEndpoints_def
      by (rule validateEndpoints_loop_invalid [OF l b])
  qed
  show "validateEndpoints (pre @ other # rest) = Some MultipleContainerIDs"
    if h: "validateEndpoints pre = None \<and> ContainerID other \<noteq> [] \<and> NICType other \<noteq> []
        \<and> (\<exists>e \<in> set pre. ContainerID e \<noteq> ContainerID other)"
  proof -
    have l: "validateEndpoints_loop pre Map.empty = None"
      using h by (simp only: validateEndpoints_def)
    have v: "ContainerID other \<noteq> []" "NICType other \<noteq> []" using h by blast+
    have "\<exists>e \<in> set pre. ContainerID e \<noteq> ContainerID other" using h by blast
    then have d: "\<exists>k \<in> dom (Map.empty :: string \<rightharpoonup> bool) \<union> ContainerID ` set pre.
        k \<noteq> ContainerID other"
      by blast
    show ?thesis unfolding validateEndpoints_def
      by (rule validateEndpoints_loop_multiple [OF v l d])
  qed
  show "validateEndpoints eps = Some InvalidEndpoint
        \<or> validateEndpoints eps = Some MultipleContainerIDs"
    if bad: "\<exists>e \<in> set eps. ContainerID e = [] \<or> NICType e = []"
  proof -
    have "validateEndpoints eps \<noteq> None" using ok bad by blast
    then show ?thesis
      using validateEndpoints_loop_result [of eps Map.empty]
      by (simp only: validateEndpoints_def) blast
  qed
qed

text \<open>The amended C8 on batches of the concrete endpoints.\<close>

theorem validateEndpoints_first_offender_witness:
  "validateEndpoints [web_abcde] = None
   \<and> validateEndpoints [web_abcde, no_nic_type, web_fghij] = Some InvalidEndpoint
   \<and> validateEndpoints [web_abcde, web_fghij, no_nic_type] = Some MultipleContainerIDs
   \<and> validateEndpoints [web_abcde, web_abcde\<lparr>endpoint.Id := ''ep4''\<rparr>] = None"
proof -
  have v: "ContainerID web_abcde = ''c1''" "NICType web_abcde = ''InfraNIC''"
    "ContainerID web_fghij = ''c2''" "NICType web_fghij = ''InfraNIC''"
    "NICType no_nic_type = []"
    by (simp_all add: ex_defs)
  have one: "validateEndpoints [web_abcde] = None"
    using validateEndpoints_first_offender [where eps = "[web_abcde]"] v by simp
  have two: "validateEndpoints [web_abcde, web_abcde\<lparr>endpoint.Id := ''ep4''\<rparr>] = None"
    using validateEndpoints_first_offender
      [where eps = "[web_abcde, web_abcde\<lparr>endpoint.Id := ''ep4''\<rparr>]"] v by simp
  have inv: "validateEndpoints ([web_abcde] @ no_nic_type # [web_fghij]) = Some InvalidEndpoint"
    using validateEndpoints_first_offender
      [where pre = "[web_abcde]" and bad = no_nic_type and rest = "[web_fghij]"] one v by simp
  have mul: "validateEndpoints ([web_abcde] @ web_fghij # [no_nic_type]) = Some MultipleContainerIDs"
    using validateEndpoints_first_offender
      [where pre = "[web_abcde]" and other = web_fghij and rest = "[no_nic_type]"] one v by simp
  show ?thesis using one two inv mul by simp
qed

subsection \<open>Suffix stripping\<close>

text \<open>
  Claim C10. A pod name splits at its hyphens into one more segment than it has hyphens.
  For every pod name of two or fewer segments (at most one hyphen),
  \<open>GetPodNameWithoutSuffix\<close> returns the name unchanged; for every name of three or more
  segments it returns the segments without the last two, joined with a hyphen, so that the
  name is the result followed by a hyphen, a segment, a hyphen and a segment, where the
  two segments contain no hyphen.
\<close>

theorem GetPodNameWithoutSuffix_segments:
  "length (strings_Split podName (CHR ''-'')) = Suc (count_list podName (CHR ''-''))
   \<and> (length (strings_Split podName (CHR ''-'')) \<le> 2 \<longrightarrow>
        GetPodNameWithoutSuffix podName = podName)
   \<and> (length (strings_Split podName (CHR ''-'')) \<ge> 3 \<longrightarrow>
        GetPodNameWithoutSuffix podName
          = strings_Join (butlast (butlast (strings_Split podName (CHR ''-'')))) ''-''
        \<and> (\<exists>a b. CHR ''-'' \<notin> set a \<and> CHR ''-'' \<notin> set b
              \<and> podName = GetPodNameWithoutSuffix podName @ ''-'' @ a @ ''-'' @ b))"
proof -
  let ?c = "CHR ''-''"
  let ?ws = "strings_Split podName ?c"
  have len: "length ?ws = Suc (count_list podName ?c)"
    by (rule length_strings_Split)
  have short: "length ?ws \<le> 2 \<longrightarrow> GetPodNameWithoutSuffix podName = podName"
    by (simp add: GetPodNameWithoutSuffix_def Let_def)
  have long: "GetPodNameWithoutSuffix podName = strings_Join (butlast (butlast ?ws)) ''-''
      \<and> (\<exists>a b. ?c \<notin> set a \<and> ?c \<notin> set b
            \<and> podName = GetPodNameWithoutSuffix podName @ ''-'' @ a @ ''-'' @ b)"
    if three: "length ?ws \<ge> 3"
  proof -
    have n: "length ?ws > 2" using three by simp
    have g: "GetPodNameWithoutSuffix podName = strings_Join (butlast (butlast ?ws)) ''-''"
      using n by (simp add: GetPodNameWithoutSuffix_def Let_def take_butlast2)
    define a where "a = last (butlast ?ws)"
    define b where "b = last ?ws"
    have ws: "?ws = butlast (butlast ?ws) @ [a, b]"
      unfolding a_def b_def by (rule split_last_two [OF n])
    have "length (butlast (butlast ?ws)) = length ?ws - 2" by simp
    then have "length (butlast (butlast ?ws)) > 0" using n by simp
    then have ne: "butlast (butlast ?ws) \<noteq> []" by (rule length_greater_0_conv [THEN iffD1])
    have "a \<in> set (butlast (butlast ?ws) @ [a, b])" "b \<in> set (butlast (butlast ?ws) @ [a, b])"
      by simp_all
    then have "a \<in> set ?ws" "b \<in> set ?ws" using ws by simp_all
    then have nosep: "?c \<notin> set a" "?c \<notin> set b"
      by (auto dest: strings_Split_no_sep)
    have "podName = strings_Join ?ws [?c]"
      by (simp add: strings_Join_Split)
    also have "\<dots> = strings_Join (butlast (butlast ?ws) @ [a, b]) [?c]"
      using ws by simp
    also have "\<dots> = strings_Join (butlast (butlast ?ws)) [?c] @ [?c] @ a @ [?c] @ b"
      by (rule strings_Join_snoc2 [OF ne])
    finally have "podName = GetPodNameWithoutSuffix podName @ ''-'' @ a @ ''-'' @ b"
      using g by simp
    with nosep g show ?thesis by blast
  qed
  show ?thesis using len short long by blast
qed

text \<open>C10 at a name of two segments and at a name of three.\<close>

theorem GetPodNameWithoutSuffix_segments_witness:
  "length (strings_Split ''web-1'' (CHR ''-'')) \<le> 2
   \<and> GetPodNameWithoutSuffix ''web-1'' = ''web-1''
   \<and> length (strings_Split ''web-7f9c8d-abcde'' (CHR ''-'')) \<ge> 3
   \<and> count_list ''web-7f9c8d-abcde'' (CHR ''-'') = 2
   \<and> GetPodNameWithoutSuffix ''web-7f9c8d-abcde'' = ''web''"
proof -
  have s1: "strings_Split ''web-1'' (CHR ''-'') = [''web'', ''1'']"
    by simp
  have s2: "strings_Split ''web-7f9c8d-abcde'' (CHR ''-'') = [''web'', ''7f9c8d'', ''abcde'']"
    by simp
  have h1: "length (strings_Split ''web-1'' (CHR ''-'')) \<le> 2" unfolding s1 by simp
  have h2: "length (strings_Split ''web-7f9c8d-abcde'' (CHR ''-'')) \<ge> 3" unfolding s2 by simp
  have r1: "GetPodNameWithoutSuffix ''web-1'' = ''web-1''"
    using GetPodNameWithoutSuffix_segments [of "''web-1''"] h1 by blast
  have "GetPodNameWithoutSuffix ''web-7f9c8d-abcde''
      = strings_Join (butlast (butlast (strings_Split ''web-7f9c8d-abcde'' (CHR ''-'')))) ''-''"
    using GetPodNameWithoutSuffix_segments [of "''web-7f9c8d-abcde''"] h2 by blast
  then have r2: "GetPodNameWithoutSuffix ''web-7f9c8d-abcde'' = ''web''"
    unfolding s2 by simp
  have "length (strings_Split ''web-7f9c8d-abcde'' (CHR ''-''))
      = Suc (count_list ''web-7f9c8d-abcde'' (CHR ''-''))"
    using GetPodNameWithoutSuffix_segments [of "''web-7f9c8d-abcde''"] by blast
  then have c: "count_list ''web-7f9c8d-abcde'' (CHR ''-'') = 2"
    unfolding s2 by simp
  show ?thesis using h1 r1 h2 c r2 by (intro conjI)
qed

end
